theory Spec2Isabelle
  imports Complex_Main
begin

section \<open>Strings and the Unicode tables of the interpreter\<close>

text \<open>
  A Python \<open>str\<close> is a sequence of Unicode code points, so a string is a list of naturals.
  \<open>str\<close> embeds an ASCII literal of the theory, \<open>cp\<close> a single character.
\<close>

type_synonym codepoint = nat
type_synonym pystr = "codepoint list"

definition cp :: "char \<Rightarrow> codepoint" where
  "cp c = of_char c"

definition str :: "string \<Rightarrow> pystr" where
  "str = map of_char"

text \<open>
  The pattern of \<open>is_valid_url\<close> is a \<open>str\<close> pattern compiled with \<open>re.IGNORECASE\<close>, so
  \<open>\d\<close>, \<open>\S\<close> and the case-insensitive comparison consult the interpreter's Unicode tables.
  The tables are not part of the repository; they are a parameter of the matcher:
  \<^item> \<open>decimal U c\<close>: \<open>c\<close> is a decimal digit (what \<open>\d\<close> matches);
  \<^item> \<open>space U c\<close>: \<open>c\<close> is whitespace (what \<open>\S\<close> refuses);
  \<^item> \<open>caseless U x c\<close>: the subject character \<open>c\<close> matches the pattern character \<open>x\<close>
    when case is ignored.
\<close>

record unicode =
  decimal :: "codepoint \<Rightarrow> bool"
  space :: "codepoint \<Rightarrow> bool"
  caseless :: "codepoint \<Rightarrow> codepoint \<Rightarrow> bool"

definition ascii_lower :: "codepoint \<Rightarrow> codepoint" where
  "ascii_lower c = (if 65 \<le> c \<and> c \<le> 90 then c + 32 else c)"

definition latin1_space :: "codepoint \<Rightarrow> bool" where
  "latin1_space c = ((9 \<le> c \<and> c \<le> 13) \<or> (28 \<le> c \<and> c \<le> 32) \<or> c = 133 \<or> c = 160)"

text \<open>The control characters (Unicode category Cc); the newline, code point 10, is one.\<close>

definition is_control :: "codepoint \<Rightarrow> bool" where
  "is_control c = (c < 32 \<or> (127 \<le> c \<and> c < 160))"

text \<open>
  What is used of the tables is what they say below code point 256: there the decimal
  digits are \<open>0\<close> to \<open>9\<close>, whitespace is \<open>\t \n \v \f \r\<close>, the separators \<open>0x1c\<close> to
  \<open>0x1f\<close>, the blank, \<open>0x85\<close> and \<open>0xa0\<close>, and an ASCII pattern character matches, ignoring
  case, exactly the ASCII characters with the same lower-case form. Every theorem about
  the validator holds for all tables that agree with this.
\<close>

definition unicode_ok :: "unicode \<Rightarrow> bool" where
  "unicode_ok U =
     ((\<forall>c<256. decimal U c = (48 \<le> c \<and> c \<le> 57)) \<and>
      (\<forall>c<256. space U c = latin1_space c) \<and>
      (\<forall>x<128. \<forall>c<256. caseless U x c = (c < 128 \<and> ascii_lower c = ascii_lower x)))"

text \<open>One such table, for evaluating the validator on concrete strings.\<close>

definition latin1 :: unicode where
  "latin1 = \<lparr> decimal = (\<lambda>c. 48 \<le> c \<and> c \<le> 57),
              space = latin1_space,
              caseless = (\<lambda>x c. c < 128 \<and> ascii_lower c = ascii_lower x) \<rparr>"

section \<open>The regular expression of \<open>is_valid_url\<close>\<close>

text \<open>
  The parse tree of a pattern: a character set \<open>In\<close> of literal characters, ranges and
  the categories \<open>\d\<close> and \<open>\S\<close>; sequence; alternation \<open>|\<close>; and the greedy repetition
  \<open>{lo,hi}\<close>, with \<open>hi = None\<close> for an open bound (\<open>+\<close> is \<open>{1,}\<close>, \<open>?\<close> is \<open>{0,1}\<close>).
\<close>

datatype item = Chr codepoint | Rng codepoint codepoint | Category_Digit | Category_Not_Space

datatype rx = In "item list" | Seq rx rx | Branch rx rx | Max_Repeat nat "nat option" rx | Empty

fun item_match :: "unicode \<Rightarrow> item \<Rightarrow> codepoint \<Rightarrow> bool" where
  "item_match U (Chr x) c = caseless U x c"
| "item_match U (Rng a b) c = list_ex (\<lambda>x. caseless U x c) [a ..< Suc b]"
| "item_match U Category_Digit c = decimal U c"
| "item_match U Category_Not_Space c = (\<not> space U c)"

text \<open>
  The matcher is the backtracking search of \<open>re\<close>: \<open>consume U p s\<close> lists, in the order the
  engine tries them, the remainders of \<open>s\<close> after each way \<open>p\<close> can match at its start.
  \<open>exactly f n\<close> runs \<open>n\<close> iterations, \<open>at_most f n\<close> up to \<open>n\<close> more and \<open>any_number f\<close> as
  many as the subject allows, longest first. An iteration that consumes nothing is not
  repeated, which is the engine's guard against an endless loop.
\<close>

fun exactly :: "(pystr \<Rightarrow> pystr list) \<Rightarrow> nat \<Rightarrow> pystr \<Rightarrow> pystr list" where
  "exactly f 0 s = [s]"
| "exactly f (Suc n) s = concat (map (exactly f n) (f s))"

fun at_most :: "(pystr \<Rightarrow> pystr list) \<Rightarrow> nat \<Rightarrow> pystr \<Rightarrow> pystr list" where
  "at_most f 0 s = [s]"
| "at_most f (Suc n) s = concat (map (at_most f n) (f s)) @ [s]"

function any_number :: "(pystr \<Rightarrow> pystr list) \<Rightarrow> pystr \<Rightarrow> pystr list" where
  "any_number f s =
     concat (map (any_number f) (filter (\<lambda>t. length t < length s) (f s))) @ [s]"
  by pat_completeness auto
termination
  by (relation "measure (\<lambda>(f, s). length s)") auto

declare any_number.simps [simp del]

primrec consume :: "unicode \<Rightarrow> rx \<Rightarrow> pystr \<Rightarrow> pystr list" where
  "consume U (In items) =
     (\<lambda>s. case s of [] \<Rightarrow> []
          | c # t \<Rightarrow> if list_ex (\<lambda>i. item_match U i c) items then [t] else [])"
| "consume U (Seq p q) = (\<lambda>s. concat (map (consume U q) (consume U p s)))"
| "consume U (Branch p q) = (\<lambda>s. consume U p s @ consume U q s)"
| "consume U (Max_Repeat lo hi p) =
     (\<lambda>s. concat (map
        (case hi of None \<Rightarrow> any_number (consume U p)
                  | Some h \<Rightarrow> at_most (consume U p) (h - lo))
        (exactly (consume U p) lo s)))"
| "consume U Empty = (\<lambda>s. [s])"

definition literal :: "string \<Rightarrow> rx" where
  "literal cs = foldr (\<lambda>c r. Seq (In [Chr (cp c)]) r) cs Empty"

definition optional :: "rx \<Rightarrow> rx" where
  "optional p = Max_Repeat 0 (Some 1) p"

text \<open>
  The pattern, piece by piece as the source writes it:
  \<^verbatim>\<open>^(?:http|ftp)s?://\<close>
  \<^verbatim>\<open>(?:(?:[A-Z0-9](?:[A-Z0-9-]{0,61}[A-Z0-9])?\.)+(?:[A-Z]{2,6}\.?|[A-Z0-9-]{2,}\.?)|\<close>
  \<^verbatim>\<open>localhost|\<close>
  \<^verbatim>\<open>\d{1,3}\.\d{1,3}\.\d{1,3}\.\d{1,3})\<close>
  \<^verbatim>\<open>(?::\d+)?\<close>
  \<^verbatim>\<open>(?:/?|[/?]\S+)$\<close>
\<close>

definition upper :: item where
  "upper = Rng (cp CHR ''A'') (cp CHR ''Z'')"

definition alnum :: rx where
  "alnum = In [upper, Rng (cp CHR ''0'') (cp CHR ''9'')]"

definition alnum_hyphen :: rx where
  "alnum_hyphen = In [upper, Rng (cp CHR ''0'') (cp CHR ''9''), Chr (cp CHR ''-'')]"

definition digits_1_3 :: rx where
  "digits_1_3 = Max_Repeat 1 (Some 3) (In [Category_Digit])"

definition scheme_rx :: rx where
  "scheme_rx = Seq (Branch (literal ''http'') (literal ''ftp''))
                 (Seq (optional (literal ''s'')) (literal ''://''))"

definition domain_rx :: rx where
  "domain_rx =
     Seq (Max_Repeat 1 None
            (Seq alnum
              (Seq (optional (Seq (Max_Repeat 0 (Some 61) alnum_hyphen) alnum))
                   (literal ''.''))))
         (Branch (Seq (Max_Repeat 2 (Some 6) (In [upper])) (optional (literal ''.'')))
                 (Seq (Max_Repeat 2 None alnum_hyphen) (optional (literal ''.''))))"

definition ipv4_rx :: rx where
  "ipv4_rx =
     Seq digits_1_3 (Seq (literal ''.'')
    (Seq digits_1_3 (Seq (literal ''.'')
    (Seq digits_1_3 (Seq (literal ''.'') digits_1_3)))))"

definition host_rx :: rx where
  "host_rx = Branch domain_rx (Branch (literal ''localhost'') ipv4_rx)"

definition port_rx :: rx where
  "port_rx = optional (Seq (literal '':'') (Max_Repeat 1 None (In [Category_Digit])))"

definition path_rx :: rx where
  "path_rx =
     Branch (optional (literal ''/''))
            (Seq (In [Chr (cp CHR ''/''), Chr (cp CHR ''?'')])
                 (Max_Repeat 1 None (In [Category_Not_Space])))"

text \<open>Scheme, host and port: everything of the pattern before its trailing group.\<close>

definition head_rx :: rx where
  "head_rx = Seq scheme_rx (Seq host_rx port_rx)"

definition url_regex :: rx where
  "url_regex = Seq head_rx path_rx"

text \<open>
  For the proofs: the set items that occur in a pattern; the items that only match
  printable, non-blank characters (an ASCII character or range from \<open>!\<close> to \<open>~\<close>, or
  \<open>\d\<close>); and a group of one to three decimal digits.
\<close>

primrec items_of :: "rx \<Rightarrow> item list" where
  "items_of (In its) = its"
| "items_of (Seq p q) = items_of p @ items_of q"
| "items_of (Branch p q) = items_of p @ items_of q"
| "items_of (Max_Repeat lo hi p) = items_of p"
| "items_of Empty = []"

fun plain_item :: "item \<Rightarrow> bool" where
  "plain_item (Chr x) = (33 \<le> x \<and> x < 127)"
| "plain_item (Rng a b) = (33 \<le> a \<and> b < 127)"
| "plain_item Category_Digit = True"
| "plain_item Category_Not_Space = False"

definition digit_group :: "unicode \<Rightarrow> pystr \<Rightarrow> bool" where
  "digit_group U g = (list_all (decimal U) g \<and> 1 \<le> length g \<and> length g \<le> 3)"







text \<open>
  \<open>re.match\<close> anchors the pattern at the start of the subject, where \<open>^\<close> holds. Without
  \<open>re.MULTILINE\<close> the final \<open>$\<close> holds at the end of the subject and also just before a
  newline that is its last character: \<open>at_end\<close> is that test on what remains.
  \<open>is_valid_url\<close> is \<open>re.match(url_regex, url) is not None\<close>, the value the function
  returns on a string when nothing raises.
\<close>

definition at_end :: "pystr \<Rightarrow> bool" where
  "at_end t = (t = [] \<or> t = [10])"

definition is_valid_url :: "unicode \<Rightarrow> pystr \<Rightarrow> bool" where
  "is_valid_url U url = list_ex at_end (consume U url_regex url)"

section \<open>Python values, exceptions and the HTTP reply\<close>

text \<open>
  The values a JSON document decodes to. A finite \<open>float\<close> is kept by the rational it
  denotes (comparison with an \<open>int\<close> is exact in Python); the decoder also accepts
  \<open>NaN\<close> and the two infinities.
\<close>

datatype pyfloat = Finite rat | Infinity | Neg_Infinity | NaN

datatype pyval =
    PyNone
  | PyBool bool
  | PyInt int
  | PyFloat pyfloat
  | PyStr pystr
  | PyList "pyval list"
  | PyDict "(pystr \<times> pyval) list"

text \<open>
  Exceptions are values: a class and the message \<open>str(e)\<close>. \<open>except Exception\<close> catches
  every class but those that derive from \<open>BaseException\<close> only.
\<close>

datatype exn_class =
    ConnectionError | Timeout | SSLError | JSONDecodeError | AttributeError | TypeError
  | KeyboardInterrupt

datatype exn = Exn exn_class pystr

fun class_of :: "exn \<Rightarrow> exn_class" where
  "class_of (Exn k m) = k"

fun exn_str :: "exn \<Rightarrow> pystr" where
  "exn_str (Exn k m) = m"

fun is_Exception :: "exn_class \<Rightarrow> bool" where
  "is_Exception KeyboardInterrupt = False"
| "is_Exception k = True"

text \<open>
  The failures of \<open>requests.post\<close> before any response arrives: no connection (DNS,
  refused), a timeout, a TLS error.
\<close>

fun transport_failure :: "exn_class \<Rightarrow> bool" where
  "transport_failure ConnectionError = True"
| "transport_failure Timeout = True"
| "transport_failure SSLError = True"
| "transport_failure k = False"

text \<open>
  The response object, by what the code reads of it: \<open>status_code\<close>, \<open>text\<close> (here
  \<open>body\<close>) and the outcome of calling \<open>json()\<close>, which raises or returns the decoded
  document. \<open>requests.post\<close> itself raises or returns a response.
\<close>

record response =
  status_code :: int
  body :: pystr
  json :: "exn + pyval"

type_synonym reply = "exn + response"

text \<open>\<open>str(n)\<close> for an integer, as an f-string formats it: decimal, with a sign when negative.\<close>

function str_nat :: "nat \<Rightarrow> pystr" where
  "str_nat n = (if n < 10 then [48 + n] else str_nat (n div 10) @ [48 + n mod 10])"
  by pat_completeness auto
termination
  by (relation "measure (\<lambda>n. n)") auto

declare str_nat.simps [simp del]

definition str_int :: "int \<Rightarrow> pystr" where
  "str_int i = (if i < 0 then 45 # str_nat (nat (- i)) else str_nat (nat i))"

text \<open>
  \<open>result.get(key, default)\<close>: a lookup on a \<open>dict\<close>, an \<open>AttributeError\<close> on any other
  decoded document.
\<close>

fun type_name :: "pyval \<Rightarrow> pystr" where
  "type_name PyNone = str ''NoneType''"
| "type_name (PyBool b) = str ''bool''"
| "type_name (PyInt n) = str ''int''"
| "type_name (PyFloat x) = str ''float''"
| "type_name (PyStr s) = str ''str''"
| "type_name (PyList vs) = str ''list''"
| "type_name (PyDict d) = str ''dict''"

fun get :: "pyval \<Rightarrow> pystr \<Rightarrow> pyval \<Rightarrow> exn + pyval" where
  "get (PyDict d) key dflt = Inr (case map_of d key of None \<Rightarrow> dflt | Some v \<Rightarrow> v)"
| "get v key dflt =
     Inl (Exn AttributeError
       ([39] @ type_name v @ [39] @ str '' object has no attribute '' @ [39] @ str ''get'' @ [39]))"

text \<open>
  \<open>prediction == k\<close> for an integer literal \<open>k\<close>: numbers compare by value, \<open>bool\<close> being
  a subclass of \<open>int\<close>; everything else is unequal to an integer.
\<close>

fun py_eq_int :: "pyval \<Rightarrow> int \<Rightarrow> bool" where
  "py_eq_int (PyInt n) k = (n = k)"
| "py_eq_int (PyBool b) k = ((if b then 1 else 0) = k)"
| "py_eq_int (PyFloat (Finite q)) k = (q = of_int k)"
| "py_eq_int v k = False"


section \<open>The pages\<close>

text \<open>
  What a run of the script does, in order: the Streamlit calls that render something,
  the pause and the HTTP request.
\<close>

datatype event =
    St_set_page_config pystr pystr pystr pystr
  | St_title pystr
  | St_header pystr
  | St_subheader pystr
  | St_markdown pystr
  | St_markdown_html pystr
  | St_info pystr
  | St_caption pystr
  | St_radio pystr "pystr list"
  | St_text_input pystr pystr pystr
  | St_button pystr pystr
  | St_spinner pystr
  | Time_sleep nat
  | Requests_post pystr pyval
  | St_error pystr
  | St_toast pystr
  | St_success pystr
  | St_warning pystr
  | St_json pyval

text \<open>
  What one run of the script reads from outside: the option selected in the sidebar, the
  content of the text box, whether the button was pressed, how \<open>requests.post\<close> ends if
  it is called, and today's date (as \<open>strftime('%B %d, %Y')\<close> prints it, and its year).
\<close>

datatype nav = Project_Info | URL_Prediction

record world =
  radio :: nav
  url_input :: pystr
  button :: bool
  post_reply :: reply
  today_long :: pystr
  today_year :: int

record session_state =
  page :: "pystr option"

definition SPACE_API_URL :: pystr where
  "SPACE_API_URL = str ''https://nayds004-url-predictor-space.hf.space/predict''"

fun option_label :: "nav \<Rightarrow> pystr" where
  "option_label Project_Info = str ''Project Info''"
| "option_label URL_Prediction = str ''URL Prediction''"

definition set_page_config :: "event list" where
  "set_page_config =
     [St_set_page_config (str ''SafeURL Predictor'') [128737, 65039] (str ''wide'') (str ''expanded'')]"

definition info_page :: "world \<Rightarrow> event list" where
  "info_page w =
     [St_title ([128737, 65039] @ str '' SafeURL Predictor: Project Overview''),
      St_markdown_html
        ([10] @ str ''    <div style='' @ [34]
         @ str ''background-color: #f0f8ff; padding: 20px; border-radius: 10px; border-left: 5px solid #1e90ff;''
         @ [34] @ str ''>'' @ [10]
         @ str ''        <h2 style='' @ [34] @ str ''color: #1e90ff;'' @ [34]
         @ str ''>Project Mission</h2>'' @ [10]
         @ str ''        <p>'' @ [10]
         @ str ''        This application is designed to analyze and classify URLs in real-time to determine if they are safe or malicious.''
         @ [10]
         @ str ''        It uses a machine learning model hosted on HuggingFace Spaces.'' @ [10]
         @ str ''        </p>'' @ [10]
         @ str ''    </div>'' @ [10] @ str ''    ''),
      St_subheader ([127891] @ str '' Student Information''),
      St_info (str ''**Name:** Chinedu Egbuna''),
      St_info (str ''**Course:** Data Science Project''),
      St_info (str ''**Date:** '' @ today_long w)]"

text \<open>
  How a block of statements ends: it runs to its end with a value, it executes
  \<open>return\<close>, or an exception leaves it.
\<close>

datatype 'a completion = Falls_through 'a | Returns | Raises exn

text \<open>The body of the \<open>try\<close> (lines 89 to 95), given how \<open>requests.post\<close> ended.\<close>

definition try_body :: "reply \<Rightarrow> event list \<times> pyval completion" where
  "try_body r =
     (case r of
        Inl e \<Rightarrow> ([], Raises e)
      | Inr response \<Rightarrow>
          if status_code response = 200 then
            (case json response of
               Inl e \<Rightarrow> ([], Raises e)
             | Inr result \<Rightarrow>
                 (case get result (str ''prediction'') PyNone of
                    Inl e \<Rightarrow> ([], Raises e)
                  | Inr prediction \<Rightarrow> ([], Falls_through prediction)))
          else
            ([St_error (str ''API Error: '' @ str_int (status_code response) @ str '' - ''
                        @ body response)],
             Returns))"

text \<open>The \<open>try\<close> with its handler \<open>except Exception as e\<close> (lines 88 to 98).\<close>

definition try_except :: "reply \<Rightarrow> event list \<times> pyval completion" where
  "try_except r =
     (case try_body r of
        (evs, Raises e) \<Rightarrow>
          if is_Exception (class_of e)
          then (evs @ [St_error (str ''Request failed: '' @ exn_str e)], Returns)
          else (evs, Raises e)
      | (evs, c) \<Rightarrow> (evs, c))"

text \<open>The three result messages (lines 103 to 108).\<close>

definition malicious :: event where
  "malicious = St_error ([128680] @ str '' **MALICIOUS URL**'')"

definition benign :: event where
  "benign = St_success ([9989] @ str '' **BENIGN URL**'')"

definition unavailable :: event where
  "unavailable = St_warning ([9888, 65039] @ str '' Prediction unavailable.'')"

definition verdict :: "pyval \<Rightarrow> event" where
  "verdict prediction =
     (if py_eq_int prediction 1 then malicious
      else if py_eq_int prediction 0 then benign
      else unavailable)"

definition payload :: "pystr \<Rightarrow> pyval" where
  "payload url = PyDict [(str ''url'', PyStr url)]"

text \<open>
  What pressing the button does (lines 85 to 111): the events, and the exception that
  leaves the page, if one does. \<open>request_events\<close> is the spinner, the pause and the POST
  (lines 85 to 89), \<open>result_events\<close> the display after a prediction was read (lines 100 to
  111). The validity check of lines 80 to 83 is commented out in the source and so has no
  counterpart here.
\<close>

definition request_events :: "pystr \<Rightarrow> event list" where
  "request_events url =
     [St_spinner (str ''Sending URL to Space API for prediction...''),
      Time_sleep 1,
      Requests_post SPACE_API_URL (payload url)]"

definition result_events :: "pystr \<Rightarrow> pyval \<Rightarrow> event list" where
  "result_events url prediction =
     [St_toast (str ''Analysis complete!''),
      St_markdown (str ''### Result''),
      verdict prediction,
      St_markdown (str ''### Submitted URL''),
      St_json (payload url)]"

definition analyze :: "pystr \<Rightarrow> reply \<Rightarrow> event list \<times> exn option" where
  "analyze url r =
     (case try_except r of
        (evs, Returns) \<Rightarrow> (request_events url @ evs, None)
      | (evs, Raises e) \<Rightarrow> (request_events url @ evs, Some e)
      | (evs, Falls_through prediction) \<Rightarrow>
          (request_events url @ evs @ result_events url prediction, None))"

definition prediction_page :: "world \<Rightarrow> event list \<times> exn option" where
  "prediction_page w =
     (let form = [St_title ([128279] @ str '' URL Safety Checker''),
                  St_subheader (str ''Enter a URL to check if it'' @ [8217] @ str ''s safe.''),
                  St_markdown (str ''---''),
                  St_text_input (str ''URL to Analyze'')
                    (str ''https://www.google.com/search?q=safeurl'') (str ''Paste a full URL''),
                  St_button (str ''Analyze URL'') (str ''primary'')]
      in if button w
         then (case analyze (url_input w) (post_reply w) of (evs, exc) \<Rightarrow> (form @ evs, exc))
         else (form, None))"

text \<open>
  \<open>main\<close>: the session keeps the selected page; the sidebar is drawn, then the page the
  radio button selects.
\<close>

definition main :: "world \<Rightarrow> session_state \<Rightarrow> session_state \<times> event list \<times> exn option" where
  "main w st =
     (let st1 = (if page st = None then st\<lparr>page := Some (str ''Project Info'')\<rparr> else st);
          st2 = st1\<lparr>page := Some (option_label (radio w))\<rparr>;
          sidebar = [St_header (str ''Navigation''),
                     St_radio (str ''Go to:'') [str ''Project Info'', str ''URL Prediction''],
                     St_markdown (str ''---''),
                     St_caption (str ''App Version 1.0 | '' @ str_int (today_year w))]
      in if page st2 = Some (str ''Project Info'')
         then (st2, sidebar @ info_page w, None)
         else (case prediction_page w of (evs, exc) \<Rightarrow> (st2, sidebar @ evs, exc)))"

text \<open>One run of the script, and the runs of a session: Streamlit runs the script again
  on every interaction, with the session state the last run left.\<close>

definition script :: "world \<Rightarrow> session_state \<Rightarrow> session_state \<times> event list \<times> exn option" where
  "script w st = (case main w st of (st', evs, exc) \<Rightarrow> (st', set_page_config @ evs, exc))"

fun session :: "session_state \<Rightarrow> world list \<Rightarrow> event list" where
  "session st [] = []"
| "session st (w # ws) = (case script w st of (st', evs, exc) \<Rightarrow> evs @ session st' ws)"

text \<open>The HTTP requests among some events, and the documents echoed with \<open>st.json\<close>.\<close>

fun post_of :: "event \<Rightarrow> (pystr \<times> pyval) list" where
  "post_of (Requests_post u v) = [(u, v)]"
| "post_of e = []"

definition posts :: "event list \<Rightarrow> (pystr \<times> pyval) list" where
  "posts evs = concat (map post_of evs)"

fun echo_of :: "event \<Rightarrow> pyval list" where
  "echo_of (St_json v) = [v]"
| "echo_of e = []"

definition echoes :: "event list \<Rightarrow> pyval list" where
  "echoes evs = concat (map echo_of evs)"

text \<open>An event with the submitted URL blanked out, to compare two submissions.\<close>

fun blank_url :: "event \<Rightarrow> event" where
  "blank_url (Requests_post u v) = Requests_post u PyNone"
| "blank_url (St_json v) = St_json PyNone"
| "blank_url e = e"

section \<open>The validator\<close>

subsection \<open>Evaluating the pattern\<close>

lemma unicode_ok_latin1: "unicode_ok latin1"
  by (simp add: unicode_ok_def latin1_def)

lemma decimal_below:
  "unicode_ok U \<Longrightarrow> c < 256 \<Longrightarrow> decimal U c = (48 \<le> c \<and> c \<le> 57)"
  by (simp add: unicode_ok_def)

lemma space_below:
  "unicode_ok U \<Longrightarrow> c < 256 \<Longrightarrow> space U c = latin1_space c"
  by (simp add: unicode_ok_def)

lemma caseless_below:
  "unicode_ok U \<Longrightarrow> x < 128 \<Longrightarrow> c < 256 \<Longrightarrow>
     caseless U x c = (c < 128 \<and> ascii_lower c = ascii_lower x)"
  by (simp add: unicode_ok_def)

lemma ascii_lower_eq_iff:
  "ascii_lower c = ascii_lower x \<longleftrightarrow>
     (x = c \<or> (65 \<le> c \<and> c \<le> 90 \<and> x = c + 32) \<or> (97 \<le> c \<and> c \<le> 122 \<and> x + 32 = c))"
  unfolding ascii_lower_def by (cases "65 \<le> c \<and> c \<le> 90"; cases "65 \<le> x \<and> x \<le> 90") auto

lemma item_match_Rng:
  assumes "unicode_ok U" "b < 128" "c < 256"
  shows "item_match U (Rng a b) c =
     ((a \<le> c \<and> c \<le> b) \<or> (65 \<le> c \<and> c \<le> 90 \<and> a \<le> c + 32 \<and> c + 32 \<le> b)
        \<or> (97 \<le> c \<and> c \<le> 122 \<and> a + 32 \<le> c \<and> c \<le> b + 32))"
    (is "_ = ?R")
proof -
  have ic: "caseless U x c = (c < 128 \<and> ascii_lower c = ascii_lower x)" if "x \<le> b" for x
    using that assms by (intro caseless_below) auto
  have "item_match U (Rng a b) c = (\<exists>x. a \<le> x \<and> x \<le> b \<and> caseless U x c)"
    by (auto simp: list_ex_iff)
  also have "\<dots> = (\<exists>x. a \<le> x \<and> x \<le> b \<and> c < 128 \<and> ascii_lower c = ascii_lower x)"
    using ic by blast
  also have "\<dots> = ?R"
  proof
    assume "\<exists>x. a \<le> x \<and> x \<le> b \<and> c < 128 \<and> ascii_lower c = ascii_lower x"
    then obtain x where x: "a \<le> x" "x \<le> b" "ascii_lower c = ascii_lower x" by blast
    from x(3) consider "x = c" | "65 \<le> c \<and> c \<le> 90 \<and> x = c + 32" | "97 \<le> c \<and> c \<le> 122 \<and> x + 32 = c"
      unfolding ascii_lower_eq_iff by blast
    then show ?R using x(1,2) by cases auto
  next
    assume R: ?R
    then consider (1) "a \<le> c \<and> c \<le> b" | (2) "65 \<le> c \<and> c \<le> 90 \<and> a \<le> c + 32 \<and> c + 32 \<le> b"
      | (3) "97 \<le> c \<and> c \<le> 122 \<and> a + 32 \<le> c \<and> c \<le> b + 32" by blast
    then show "\<exists>x. a \<le> x \<and> x \<le> b \<and> c < 128 \<and> ascii_lower c = ascii_lower x"
    proof cases
      case 1
      then have "a \<le> c \<and> c \<le> b \<and> c < 128 \<and> ascii_lower c = ascii_lower c" using assms(2) by simp
      then show ?thesis by blast
    next
      case 2
      then have "a \<le> c + 32 \<and> c + 32 \<le> b \<and> c < 128 \<and> ascii_lower c = ascii_lower (c + 32)"
        by (simp add: ascii_lower_def)
      then show ?thesis by blast
    next
      case 3
      then have "a \<le> c - 32 \<and> c - 32 \<le> b \<and> c < 128 \<and> ascii_lower c = ascii_lower (c - 32)"
        unfolding ascii_lower_def by auto
      then show ?thesis by blast
    qed
  qed
  finally show ?thesis .
qed

lemma at_most_numeral:
  "at_most f (numeral k) s = concat (map (at_most f (pred_numeral k)) (f s)) @ [s]"
  by (simp add: numeral_eq_Suc)

lemma exactly_numeral:
  "exactly f (numeral k) s = concat (map (exactly f (pred_numeral k)) (f s))"
  by (simp add: numeral_eq_Suc)

text \<open>
  Where every iteration consumes a character, as each repeated group of the pattern does
  (it starts with a character set), the guard of \<open>any_number\<close> removes nothing.
\<close>

lemma any_number_unguarded:
  assumes "\<And>t. t \<in> set (f s) \<Longrightarrow> length t < length s"
  shows "any_number f s = concat (map (any_number f) (f s)) @ [s]"
proof -
  have "filter (\<lambda>t. length t < length s) (f s) = f s"
    using assms by (simp add: filter_id_conv)
  then show ?thesis by (subst any_number.simps) simp
qed

lemma consume_In_shorter:
  "t \<in> set (consume U (In its) s) \<Longrightarrow> length t < length s"
  by (auto split: list.splits if_splits)

lemmas rx_defs = url_regex_def head_rx_def scheme_rx_def host_rx_def domain_rx_def ipv4_rx_def
  port_rx_def path_rx_def alnum_def alnum_hyphen_def digits_1_3_def upper_def optional_def
  literal_def cp_def

lemmas rx_eval = rx_defs str_def at_end_def latin1_space_def
  caseless_below decimal_below space_below item_match_Rng ascii_lower_def
  at_most_numeral exactly_numeral any_number.simps

subsection \<open>What a match consumes\<close>

lemma exactly_eats:
  assumes f: "\<And>s t. t \<in> set (f s) \<Longrightarrow> \<exists>p. s = p @ t \<and> list_all P p"
  shows "t \<in> set (exactly f n s) \<Longrightarrow> \<exists>p. s = p @ t \<and> list_all P p"
proof (induction n arbitrary: s)
  case 0
  then have "s = [] @ t \<and> list_all P []" by simp
  then show ?case by blast
next
  case (Suc n)
  then obtain u where u: "u \<in> set (f s)" "t \<in> set (exactly f n u)" by auto
  from f[OF u(1)] obtain p1 where p1: "s = p1 @ u" "list_all P p1" by blast
  from Suc.IH[OF u(2)] obtain p2 where p2: "u = p2 @ t" "list_all P p2" by blast
  have "s = (p1 @ p2) @ t \<and> list_all P (p1 @ p2)" using p1 p2 by simp
  then show ?case by blast
qed

lemma at_most_eats:
  assumes f: "\<And>s t. t \<in> set (f s) \<Longrightarrow> \<exists>p. s = p @ t \<and> list_all P p"
  shows "t \<in> set (at_most f n s) \<Longrightarrow> \<exists>p. s = p @ t \<and> list_all P p"
proof (induction n arbitrary: s)
  case 0
  then have "s = [] @ t \<and> list_all P []" by simp
  then show ?case by blast
next
  case (Suc n)
  then consider (stop) "t = s" | (step) u where "u \<in> set (f s)" "t \<in> set (at_most f n u)"
    by auto
  then show ?case
  proof cases
    case stop
    then have "s = [] @ t \<and> list_all P []" by simp
    then show ?thesis by blast
  next
    case step
    from f[OF step(1)] obtain p1 where p1: "s = p1 @ u" "list_all P p1" by blast
    from Suc.IH[OF step(2)] obtain p2 where p2: "u = p2 @ t" "list_all P p2" by blast
    have "s = (p1 @ p2) @ t \<and> list_all P (p1 @ p2)" using p1 p2 by simp
    then show ?thesis by blast
  qed
qed

lemma any_number_eats:
  "\<forall>s t. t \<in> set (f s) \<longrightarrow> (\<exists>p. s = p @ t \<and> list_all P p) \<Longrightarrow>
   t \<in> set (any_number f s) \<Longrightarrow> \<exists>p. s = p @ t \<and> list_all P p"
proof (induction f s arbitrary: t rule: any_number.induct)
  case (1 f s)
  from "1.prems"(2) consider (stop) "t = s"
    | (step) u where "u \<in> set (f s)" "length u < length s" "t \<in> set (any_number f u)"
    by (subst (asm) any_number.simps) auto
  then show ?case
  proof cases
    case stop
    then have "s = [] @ t \<and> list_all P []" by simp
    then show ?thesis by blast
  next
    case step
    from "1.prems"(1) step(1) obtain p1 where p1: "s = p1 @ u" "list_all P p1" by blast
    have "u \<in> set (filter (\<lambda>t. length t < length s) (f s))" using step by simp
    from "1.IH"[OF this "1.prems"(1) step(3)]
    obtain p2 where p2: "u = p2 @ t" "list_all P p2" by blast
    have "s = (p1 @ p2) @ t \<and> list_all P (p1 @ p2)" using p1 p2 by simp
    then show ?thesis by blast
  qed
qed

lemma consume_eats:
  assumes "\<And>i c. i \<in> set (items_of r) \<Longrightarrow> item_match U i c \<Longrightarrow> P c"
  shows "t \<in> set (consume U r s) \<Longrightarrow> \<exists>p. s = p @ t \<and> list_all P p"
  using assms
proof (induction r arbitrary: s t)
  case (In its)
  from In.prems(1) obtain c where c: "s = c # t" "list_ex (\<lambda>i. item_match U i c) its"
    by (auto split: list.splits if_splits)
  then obtain i where "i \<in> set its" "item_match U i c" by (auto simp: list_ex_iff)
  then have "P c" using In.prems(2) by simp
  then have "s = [c] @ t \<and> list_all P [c]" using c by simp
  then show ?case by blast
next
  case (Seq p q)
  from Seq.prems(1) obtain u where u: "u \<in> set (consume U p s)" "t \<in> set (consume U q u)"
    by auto
  from Seq.IH(1)[OF u(1)] Seq.prems(2) obtain p1 where p1: "s = p1 @ u" "list_all P p1"
    by auto
  from Seq.IH(2)[OF u(2)] Seq.prems(2) obtain p2 where p2: "u = p2 @ t" "list_all P p2"
    by auto
  have "s = (p1 @ p2) @ t \<and> list_all P (p1 @ p2)" using p1 p2 by simp
  then show ?case by blast
next
  case (Branch p q)
  from Branch.prems(1) consider "t \<in> set (consume U p s)" | "t \<in> set (consume U q s)"
    by auto
  then show ?case
  proof cases
    case 1
    from Branch.IH(1)[OF 1] Branch.prems(2) show ?thesis by auto
  next
    case 2
    from Branch.IH(2)[OF 2] Branch.prems(2) show ?thesis by auto
  qed
next
  case (Max_Repeat lo hi p)
  have f: "\<And>s t. t \<in> set (consume U p s) \<Longrightarrow> \<exists>pre. s = pre @ t \<and> list_all P pre"
    using Max_Repeat.IH Max_Repeat.prems(2) by auto
  from Max_Repeat.prems(1) obtain u where u: "u \<in> set (exactly (consume U p) lo s)"
    "t \<in> set ((case hi of None \<Rightarrow> any_number (consume U p)
                 | Some h \<Rightarrow> at_most (consume U p) (h - lo)) u)"
    by auto
  from exactly_eats[of "consume U p" P, OF f u(1)]
  obtain p1 where p1: "s = p1 @ u" "list_all P p1" by blast
  have "\<exists>p2. u = p2 @ t \<and> list_all P p2"
  proof (cases hi)
    case None
    with u(2) have "t \<in> set (any_number (consume U p) u)" by simp
    from any_number_eats[of "consume U p" P] f this show ?thesis by blast
  next
    case (Some h)
    with u(2) have "t \<in> set (at_most (consume U p) (h - lo) u)" by simp
    from at_most_eats[of "consume U p" P, OF f this] show ?thesis .
  qed
  then obtain p2 where p2: "u = p2 @ t" "list_all P p2" by blast
  have "s = (p1 @ p2) @ t \<and> list_all P (p1 @ p2)" using p1 p2 by simp
  then show ?case by blast
next
  case Empty
  then have "s = [] @ t \<and> list_all P []" by simp
  then show ?case by blast
qed


subsection \<open>Control characters and whitespace\<close>

lemma plain_chr_not_control:
  assumes "unicode_ok U" "33 \<le> x" "x < 127" "caseless U x c"
  shows "\<not> is_control c \<and> \<not> latin1_space c"
proof (cases "c < 256")
  case True
  with assms have c: "c < 128" "ascii_lower c = ascii_lower x"
    by (simp_all add: caseless_below)
  have "33 \<le> ascii_lower x \<and> ascii_lower x < 127" using assms(2,3)
    by (simp add: ascii_lower_def)
  with c(2) have "33 \<le> ascii_lower c \<and> ascii_lower c < 127" by simp
  then have "33 \<le> c \<and> c < 127" by (simp add: ascii_lower_def split: if_splits)
  then show ?thesis by (simp add: is_control_def latin1_space_def)
next
  case False
  then show ?thesis by (simp add: is_control_def latin1_space_def)
qed

lemma plain_item_not_control:
  assumes "unicode_ok U" "plain_item i" "item_match U i c"
  shows "\<not> is_control c \<and> \<not> latin1_space c"
proof (cases i)
  case (Chr x)
  with assms show ?thesis using plain_chr_not_control[of U x c] by simp
next
  case (Rng a b)
  with assms obtain x where "a \<le> x" "x \<le> b" "caseless U x c"
    by (auto simp: list_ex_iff)
  moreover have "33 \<le> a" "b < 127" using assms(2) Rng by simp_all
  ultimately show ?thesis using plain_chr_not_control[of U x c] assms(1) by simp
next
  case Category_Digit
  show ?thesis
  proof (cases "c < 256")
    case True
    with assms Category_Digit have "48 \<le> c \<and> c \<le> 57" by (simp add: decimal_below)
    then show ?thesis by (simp add: is_control_def latin1_space_def)
  next
    case False
    then show ?thesis by (simp add: is_control_def latin1_space_def)
  qed
next
  case Category_Not_Space
  with assms show ?thesis by simp
qed

lemma not_space_item:
  assumes "unicode_ok U" "item_match U Category_Not_Space c"
  shows "\<not> latin1_space c"
proof (cases "c < 256")
  case True
  with assms show ?thesis by (simp add: space_below)
next
  case False
  then show ?thesis by (simp add: latin1_space_def)
qed

lemma head_items_plain: "list_all plain_item (items_of head_rx)"
  by (simp add: rx_defs)

lemma path_items: "items_of path_rx = [Chr 47, Chr 47, Chr 63, Category_Not_Space]"
  by (simp add: rx_defs)

lemma head_eats:
  assumes "unicode_ok U" "t \<in> set (consume U head_rx s)"
  shows "\<exists>p. s = p @ t \<and> list_all (\<lambda>c. \<not> is_control c) p"
proof (rule consume_eats[OF _ assms(2)])
  fix i c assume "i \<in> set (items_of head_rx)" "item_match U i c"
  moreover from this(1) have "plain_item i" using head_items_plain by (simp add: list_all_iff)
  ultimately show "\<not> is_control c" using plain_item_not_control[OF assms(1)] by blast
qed

lemma path_eats:
  assumes "unicode_ok U" "t \<in> set (consume U path_rx s)"
  shows "\<exists>p. s = p @ t \<and> list_all (\<lambda>c. \<not> latin1_space c) p"
proof (rule consume_eats[OF _ assms(2)])
  fix i c assume i: "i \<in> set (items_of path_rx)" "item_match U i c"
  then consider "i = Chr 47" | "i = Chr 63" | "i = Category_Not_Space"
    by (auto simp: path_items)
  then show "\<not> latin1_space c"
  proof cases
    case 1
    with i(2) show ?thesis using plain_chr_not_control[OF assms(1), of 47 c] by simp
  next
    case 2
    with i(2) show ?thesis using plain_chr_not_control[OF assms(1), of 63 c] by simp
  next
    case 3
    with i(2) show ?thesis using not_space_item[OF assms(1)] by simp
  qed
qed

lemma is_valid_url_split:
  assumes "is_valid_url U s"
  obtains r n where "r \<in> set (consume U head_rx s)" "n \<in> set (consume U path_rx r)" "at_end n"
  using assms by (auto simp: is_valid_url_def url_regex_def list_ex_iff)

text \<open>
  C5 (amended). For all Unicode tables that agree with the interpreter's below code point
  256: \<open>is_valid_url\<close> is false on the empty string; and a string it accepts splits into
  a head matched by scheme, host and port, a path matched by the trailing group, and an
  end that is empty or one newline (the \<open>$\<close> of the pattern holds before a final
  newline), where the head has no control character (so no newline) and the path has
  no whitespace (so no newline, tab or other whitespace control character; control
  characters that are not whitespace may stand in the path after its first character).
  So a control character or newline outside the path makes the result false, unless it
  is a single newline at the very end of the string.
\<close>

theorem is_valid_url_control_characters:
  assumes "unicode_ok U"
  shows "\<not> is_valid_url U [] \<and>
    (is_valid_url U s \<longrightarrow>
      (\<exists>head path nl. s = head @ path @ nl
         \<and> path @ nl \<in> set (consume U head_rx s)
         \<and> nl \<in> set (consume U path_rx (path @ nl))
         \<and> (nl = [] \<or> nl = [10])
         \<and> list_all (\<lambda>c. \<not> is_control c) head
         \<and> list_all (\<lambda>c. \<not> latin1_space c) path))"
proof
  show "\<not> is_valid_url U []"
    by (simp add: is_valid_url_def rx_defs)
next
  show "is_valid_url U s \<longrightarrow>
      (\<exists>head path nl. s = head @ path @ nl
         \<and> path @ nl \<in> set (consume U head_rx s)
         \<and> nl \<in> set (consume U path_rx (path @ nl))
         \<and> (nl = [] \<or> nl = [10])
         \<and> list_all (\<lambda>c. \<not> is_control c) head
         \<and> list_all (\<lambda>c. \<not> latin1_space c) path)"
  proof
    assume "is_valid_url U s"
    then obtain r n where rn: "r \<in> set (consume U head_rx s)"
      "n \<in> set (consume U path_rx r)" "at_end n"
      by (rule is_valid_url_split)
    from head_eats[OF assms rn(1)] obtain h where h: "s = h @ r"
      "list_all (\<lambda>c. \<not> is_control c) h" by blast
    from path_eats[OF assms rn(2)] obtain p where p: "r = p @ n"
      "list_all (\<lambda>c. \<not> latin1_space c) p" by blast
    have "s = h @ p @ n \<and> p @ n \<in> set (consume U head_rx s)
         \<and> n \<in> set (consume U path_rx (p @ n))
         \<and> (n = [] \<or> n = [10])
         \<and> list_all (\<lambda>c. \<not> is_control c) h
         \<and> list_all (\<lambda>c. \<not> latin1_space c) p"
      using h p rn by (simp add: at_end_def)
    then show "\<exists>head path nl. s = head @ path @ nl
         \<and> path @ nl \<in> set (consume U head_rx s)
         \<and> nl \<in> set (consume U path_rx (path @ nl))
         \<and> (nl = [] \<or> nl = [10])
         \<and> list_all (\<lambda>c. \<not> is_control c) head
         \<and> list_all (\<lambda>c. \<not> latin1_space c) path"
      by blast
  qed
qed

text \<open>
  An accepted string with the control characters \<open>0x01\<close> and \<open>0x7f\<close> in its path.
\<close>

theorem is_valid_url_control_characters_witness:
  "is_valid_url latin1 (str ''http://localhost/'' @ [1, 127]) \<and>
   \<not> is_valid_url latin1 [] \<and>
   (\<exists>head path nl. str ''http://localhost/'' @ [1, 127] = head @ path @ nl
         \<and> path @ nl \<in> set (consume latin1 head_rx (str ''http://localhost/'' @ [1, 127]))
         \<and> nl \<in> set (consume latin1 path_rx (path @ nl))
         \<and> (nl = [] \<or> nl = [10])
         \<and> list_all (\<lambda>c. \<not> is_control c) head
         \<and> list_all (\<lambda>c. \<not> latin1_space c) path)"
proof -
  have v: "is_valid_url latin1 (str ''http://localhost/'' @ [1, 127])"
    using unicode_ok_latin1
    by (simp add: is_valid_url_def rx_eval del: item_match.simps(2))
  from is_valid_url_control_characters[OF unicode_ok_latin1,
      of "str ''http://localhost/'' @ [1, 127]"] v
  show ?thesis by blast
qed

text \<open>
  C5 as stated fails on \<^verbatim>\<open>"http://localhost\n"\<close>: the string is accepted, scheme and host
  consume all of it but the newline, the trailing group consumes nothing there, and so
  the string has no split into a head and a path that holds its newline.
\<close>

theorem trailing_newline_counterexample:
  "is_valid_url latin1 (str ''http://localhost'' @ [10]) \<and>
   consume latin1 head_rx (str ''http://localhost'' @ [10]) = [[10]] \<and>
   consume latin1 path_rx [10] = [[10]] \<and>
   \<not> (\<exists>head path. str ''http://localhost'' @ [10] = head @ path
         \<and> path \<in> set (consume latin1 head_rx (str ''http://localhost'' @ [10]))
         \<and> [] \<in> set (consume latin1 path_rx path)) \<and>
   is_control 10"
proof -
  have v: "is_valid_url latin1 (str ''http://localhost'' @ [10])"
    using unicode_ok_latin1
    by (simp add: is_valid_url_def rx_eval del: item_match.simps(2))
  have h: "consume latin1 head_rx (str ''http://localhost'' @ [10]) = [[10]]"
    using unicode_ok_latin1
    by (simp add: rx_eval del: item_match.simps(2))
  have p: "consume latin1 path_rx [10] = [[10]]"
    using unicode_ok_latin1
    by (simp add: rx_eval del: item_match.simps(2))
  have n: "\<not> (\<exists>head path. str ''http://localhost'' @ [10] = head @ path
         \<and> path \<in> set (consume latin1 head_rx (str ''http://localhost'' @ [10]))
         \<and> [] \<in> set (consume latin1 path_rx path))"
  proof
    assume "\<exists>head path. str ''http://localhost'' @ [10] = head @ path
         \<and> path \<in> set (consume latin1 head_rx (str ''http://localhost'' @ [10]))
         \<and> [] \<in> set (consume latin1 path_rx path)"
    then obtain path where "path \<in> set (consume latin1 head_rx (str ''http://localhost'' @ [10]))"
      "[] \<in> set (consume latin1 path_rx path)" by blast
    then have "[] \<in> set (consume latin1 path_rx [10])" unfolding h by simp
    then show False unfolding p by simp
  qed
  have c: "is_control 10" by (simp add: is_control_def)
  from v h p n c show ?thesis by blast
qed

subsection \<open>Dotted quads\<close>

lemma consume_Seq_mem:
  "u \<in> set (consume U p s) \<Longrightarrow> t \<in> set (consume U q u) \<Longrightarrow> t \<in> set (consume U (Seq p q) s)"
  by auto

lemma digits_1_3_consume:
  assumes "digit_group U g"
  shows "t \<in> set (consume U digits_1_3 (g @ t))"
proof -
  from assms have len: "1 \<le> length g" "length g \<le> 3" and dec: "list_all (decimal U) g"
    by (simp_all add: digit_group_def)
  from len obtain a g1 where g: "g = a # g1" by (cases g) auto
  show ?thesis
  proof (cases g1)
    case Nil
    with g dec show ?thesis by (simp add: digits_1_3_def at_most_numeral)
  next
    case (Cons b g2)
    note g1 = this
    show ?thesis
    proof (cases g2)
      case Nil
      with g g1 dec show ?thesis by (simp add: digits_1_3_def at_most_numeral)
    next
      case (Cons c g3)
      with g g1 len have "g3 = []" by simp
      with g g1 Cons dec show ?thesis by (simp add: digits_1_3_def at_most_numeral)
    qed
  qed
qed

lemma dot_consume:
  assumes "unicode_ok U"
  shows "t \<in> set (consume U (literal ''.'') (46 # t))"
  using assms by (simp add: literal_def cp_def caseless_below ascii_lower_def)

lemma ipv4_consume:
  assumes "unicode_ok U" "digit_group U g1" "digit_group U g2" "digit_group U g3"
    "digit_group U g4"
  shows "t \<in> set (consume U ipv4_rx (g1 @ 46 # g2 @ 46 # g3 @ 46 # g4 @ t))"
proof -
  note d = digits_1_3_consume and dot = dot_consume[OF assms(1)]
  have 4: "t \<in> set (consume U digits_1_3 (g4 @ t))" by (rule d[OF assms(5)])
  have 3: "t \<in> set (consume U (Seq digits_1_3 (Seq (literal ''.'') digits_1_3))
                       (g3 @ 46 # g4 @ t))"
    by (rule consume_Seq_mem[OF d[OF assms(4)] consume_Seq_mem[OF dot 4]])
  have 2: "t \<in> set (consume U (Seq digits_1_3 (Seq (literal ''.'')
                       (Seq digits_1_3 (Seq (literal ''.'') digits_1_3))))
                       (g2 @ 46 # g3 @ 46 # g4 @ t))"
    by (rule consume_Seq_mem[OF d[OF assms(3)] consume_Seq_mem[OF dot 3]])
  show ?thesis unfolding ipv4_rx_def
    by (rule consume_Seq_mem[OF d[OF assms(2)] consume_Seq_mem[OF dot 2]])
qed

lemma scheme_http_consume:
  assumes "unicode_ok U"
  shows "t \<in> set (consume U scheme_rx (str ''http://'' @ t))"
  using assms
  by (simp add: scheme_rx_def optional_def literal_def cp_def str_def caseless_below
      ascii_lower_def at_most_numeral)

lemma dotted_quad_valid:
  assumes "unicode_ok U" "digit_group U g1" "digit_group U g2" "digit_group U g3"
    "digit_group U g4"
  shows "is_valid_url U (str ''http://'' @ g1 @ str ''.'' @ g2 @ str ''.'' @ g3 @ str ''.'' @ g4)"
proof -
  let ?q = "g1 @ 46 # g2 @ 46 # g3 @ 46 # g4 @ []"
  have ip: "[] \<in> set (consume U ipv4_rx ?q)"
    by (rule ipv4_consume[OF assms])
  then have host: "[] \<in> set (consume U host_rx ?q)"
    by (simp add: host_rx_def)
  have port: "[] \<in> set (consume U port_rx [])"
    by (simp add: port_rx_def optional_def)
  have path: "[] \<in> set (consume U path_rx [])"
    by (simp add: path_rx_def optional_def)
  have "[] \<in> set (consume U (Seq host_rx port_rx) ?q)"
    by (rule consume_Seq_mem[OF host port])
  then have "[] \<in> set (consume U head_rx (str ''http://'' @ ?q))"
    unfolding head_rx_def by (rule consume_Seq_mem[OF scheme_http_consume[OF assms(1)]])
  then have "[] \<in> set (consume U url_regex (str ''http://'' @ ?q))"
    unfolding url_regex_def by (rule consume_Seq_mem[OF _ path])
  then have "is_valid_url U (str ''http://'' @ ?q)"
    by (auto simp: is_valid_url_def list_ex_iff at_end_def)
  then show ?thesis by (simp add: str_def)
qed

text \<open>
  C7. For all Unicode tables that agree with the interpreter's below code point 256:
  \<open>is_valid_url\<close> accepts \<^verbatim>\<open>https://example.com/path?q=1\<close>, \<^verbatim>\<open>http://localhost:8080\<close> and
  \<^verbatim>\<open>ftp://10.0.0.1/file\<close>, rejects \<^verbatim>\<open>not a url\<close>, accepts \<^verbatim>\<open>http://999.999.999.999\<close>, and
  accepts \<^verbatim>\<open>http://\<close> followed by any four groups of one to three decimal digits
  separated by dots, whatever their values.
\<close>

theorem is_valid_url_examples:
  assumes "unicode_ok U"
  shows "is_valid_url U (str ''https://example.com/path?q=1'')
    \<and> is_valid_url U (str ''http://localhost:8080'')
    \<and> is_valid_url U (str ''ftp://10.0.0.1/file'')
    \<and> \<not> is_valid_url U (str ''not a url'')
    \<and> is_valid_url U (str ''http://999.999.999.999'')
    \<and> (digit_group U g1 \<and> digit_group U g2 \<and> digit_group U g3 \<and> digit_group U g4 \<longrightarrow>
         is_valid_url U
           (str ''http://'' @ g1 @ str ''.'' @ g2 @ str ''.'' @ g3 @ str ''.'' @ g4))"
proof -
  have "is_valid_url U (str ''https://example.com/path?q=1'')"
    using assms by (simp add: is_valid_url_def rx_eval del: item_match.simps(2))
  moreover have "is_valid_url U (str ''http://localhost:8080'')"
    using assms by (simp add: is_valid_url_def rx_eval del: item_match.simps(2))
  moreover have "is_valid_url U (str ''ftp://10.0.0.1/file'')"
    using assms by (simp add: is_valid_url_def rx_eval del: item_match.simps(2))
  moreover have "\<not> is_valid_url U (str ''not a url'')"
    using assms by (simp add: is_valid_url_def rx_eval del: item_match.simps(2))
  moreover have "is_valid_url U (str ''http://999.999.999.999'')"
    using assms by (simp add: is_valid_url_def rx_eval del: item_match.simps(2))
  ultimately show ?thesis using dotted_quad_valid[OF assms] by blast
qed

text \<open>The dotted quad \<^verbatim>\<open>256.7.00.999\<close>, and the examples under the table \<open>latin1\<close>.\<close>

theorem is_valid_url_examples_witness:
  "digit_group latin1 (str ''256'') \<and> digit_group latin1 (str ''7'')
    \<and> digit_group latin1 (str ''00'') \<and> digit_group latin1 (str ''999'')
    \<and> is_valid_url latin1 (str ''http://256.7.00.999'')
    \<and> is_valid_url latin1 (str ''https://example.com/path?q=1'')
    \<and> is_valid_url latin1 (str ''http://localhost:8080'')
    \<and> is_valid_url latin1 (str ''ftp://10.0.0.1/file'')
    \<and> \<not> is_valid_url latin1 (str ''not a url'')
    \<and> is_valid_url latin1 (str ''http://999.999.999.999'')"
proof -
  have g: "digit_group latin1 (str ''256'')" "digit_group latin1 (str ''7'')"
    "digit_group latin1 (str ''00'')" "digit_group latin1 (str ''999'')"
    by (simp_all add: digit_group_def latin1_def str_def)
  have e: "str ''http://'' @ str ''256'' @ str ''.'' @ str ''7'' @ str ''.'' @ str ''00''
      @ str ''.'' @ str ''999'' = str ''http://256.7.00.999''"
    by (simp add: str_def)
  from is_valid_url_examples[OF unicode_ok_latin1,
      of "str ''256''" "str ''7''" "str ''00''" "str ''999''"] g e
  show ?thesis by simp
qed

subsection \<open>Short strings\<close>










subsection \<open>Strings without a scheme\<close>








section \<open>The prediction flow\<close>

subsection \<open>The button\<close>

lemma analyze_raised:
  "is_Exception (class_of e) \<Longrightarrow>
   analyze url (Inl e) =
     (request_events url @ [St_error (str ''Request failed: '' @ exn_str e)], None)"
  by (simp add: analyze_def try_except_def try_body_def)

lemma analyze_uncaught:
  "\<not> is_Exception (class_of e) \<Longrightarrow> analyze url (Inl e) = (request_events url, Some e)"
  by (simp add: analyze_def try_except_def try_body_def)

lemma analyze_status:
  "status_code r \<noteq> 200 \<Longrightarrow>
   analyze url (Inr r) =
     (request_events url @
        [St_error (str ''API Error: '' @ str_int (status_code r) @ str '' - '' @ body r)], None)"
  by (simp add: analyze_def try_except_def try_body_def)

lemma analyze_json_raised:
  "status_code r = 200 \<Longrightarrow> json r = Inl e \<Longrightarrow> is_Exception (class_of e) \<Longrightarrow>
   analyze url (Inr r) =
     (request_events url @ [St_error (str ''Request failed: '' @ exn_str e)], None)"
  by (simp add: analyze_def try_except_def try_body_def)

lemma analyze_json_uncaught:
  "status_code r = 200 \<Longrightarrow> json r = Inl e \<Longrightarrow> \<not> is_Exception (class_of e) \<Longrightarrow>
   analyze url (Inr r) = (request_events url, Some e)"
  by (simp add: analyze_def try_except_def try_body_def)

lemma analyze_no_get:
  "status_code r = 200 \<Longrightarrow> json r = Inr v \<Longrightarrow> get v (str ''prediction'') PyNone = Inl e \<Longrightarrow>
   analyze url (Inr r) =
     (request_events url @ [St_error (str ''Request failed: '' @ exn_str e)], None)"
  by (cases v) (auto simp add: analyze_def try_except_def try_body_def)

lemma analyze_dict:
  "status_code r = 200 \<Longrightarrow> json r = Inr (PyDict d) \<Longrightarrow>
   analyze url (Inr r) =
     (request_events url @
        result_events url (case map_of d (str ''prediction'') of None \<Rightarrow> PyNone | Some v \<Rightarrow> v),
      None)"
  by (simp add: analyze_def try_except_def try_body_def)

lemma verdict_cases:
  "verdict p =
     (if p = PyInt 1 \<or> p = PyBool True \<or> p = PyFloat (Finite 1) then malicious
      else if p = PyInt 0 \<or> p = PyBool False \<or> p = PyFloat (Finite 0) then benign
      else unavailable)"
proof (cases p)
  case (PyFloat x)
  then show ?thesis by (cases x) (simp_all add: verdict_def)
qed (simp_all add: verdict_def)

lemma messages_distinct:
  "malicious \<noteq> benign" "malicious \<noteq> unavailable" "benign \<noteq> unavailable"
  by (simp_all add: malicious_def benign_def unavailable_def)


lemma str_int_500: "str_int 500 = str ''500''"
  by (simp add: str_int_def str_def str_nat.simps[of 500] str_nat.simps[of 50]
      str_nat.simps[of 5])

lemma str_int_201: "str_int 201 = str ''201''"
  by (simp add: str_int_def str_def str_nat.simps[of 201] str_nat.simps[of 20]
      str_nat.simps[of 2])

lemma posts_append: "posts (xs @ ys) = posts xs @ posts ys"
  by (simp add: posts_def)

lemma echoes_append: "echoes (xs @ ys) = echoes xs @ echoes ys"
  by (simp add: echoes_def)

lemma posts_request_events: "posts (request_events url) = [(SPACE_API_URL, payload url)]"
  by (simp add: posts_def request_events_def)

lemma echoes_request_events: "echoes (request_events url) = []"
  by (simp add: echoes_def request_events_def)

lemma verdict_no_io: "post_of (verdict p) = [] \<and> echo_of (verdict p) = []
    \<and> blank_url (verdict p) = verdict p"
  by (simp add: verdict_def malicious_def benign_def unavailable_def)

lemma posts_result_events: "posts (result_events url p) = []"
  by (simp add: posts_def result_events_def verdict_no_io)

lemma echoes_result_events: "echoes (result_events url p) = [payload url]"
  by (simp add: echoes_def result_events_def verdict_no_io)

text \<open>The \<open>try\<close> statement renders at most one error message, and nothing else.\<close>

lemma try_except_events:
  "fst (try_except r) = [] \<or> (\<exists>m. fst (try_except r) = [St_error m])"
  by (auto simp: try_except_def try_body_def split: sum.splits if_splits completion.splits)

lemma analyze_shape:
  "\<exists>evs tl. fst (analyze url r) = request_events url @ evs @ tl
     \<and> evs = fst (try_except r)
     \<and> (tl = [] \<or> (\<exists>p. snd (try_except r) = Falls_through p \<and> tl = result_events url p))"
  by (cases "try_except r"; cases "snd (try_except r)") (auto simp: analyze_def)

lemma posts_analyze: "posts (fst (analyze url r)) = [(SPACE_API_URL, payload url)]"
proof -
  from analyze_shape[of url r] obtain evs tl where
    a: "fst (analyze url r) = request_events url @ evs @ tl" "evs = fst (try_except r)"
    "tl = [] \<or> (\<exists>p. tl = result_events url p)" by blast
  from a(2) try_except_events[of r] have "posts evs = []" by (auto simp: posts_def)
  moreover from a(3) have "posts tl = []"
  proof
    assume "tl = []" then show ?thesis by (simp add: posts_def)
  next
    assume "\<exists>p. tl = result_events url p" then show ?thesis
      using posts_result_events by auto
  qed
  ultimately show ?thesis using a(1) by (simp add: posts_append posts_request_events)
qed

lemma blank_analyze:
  "map blank_url (fst (analyze u1 r)) = map blank_url (fst (analyze u2 r))
   \<and> snd (analyze u1 r) = snd (analyze u2 r)"
  by (cases "try_except r"; cases "snd (try_except r)")
     (auto simp: analyze_def request_events_def result_events_def verdict_no_io)


subsection \<open>Claims about the prediction flow\<close>

text \<open>
  C1 (amended). For every response with status 200 whose body decodes to a JSON object,
  pressing the button renders exactly one of the three results, decided by the value of
  the field \<open>prediction\<close> (\<open>None\<close> when the field is absent): a value equal to 1 in
  Python's sense, that is the integer 1, the Boolean true or the float 1.0, gives the
  malicious message; a value equal to 0 (the integer 0, false, the float 0.0) gives the
  benign message; every other value, so every string and the absent field, gives the
  unavailable message.
\<close>

theorem prediction_outcome:
  assumes "status_code r = 200" and "json r = Inr (PyDict d)"
    and "p = (case map_of d (str ''prediction'') of None \<Rightarrow> PyNone | Some v \<Rightarrow> v)"
  shows "analyze url (Inr r) =
    (request_events url @
      [St_toast (str ''Analysis complete!''),
       St_markdown (str ''### Result''),
       (if p = PyInt 1 \<or> p = PyBool True \<or> p = PyFloat (Finite 1) then malicious
        else if p = PyInt 0 \<or> p = PyBool False \<or> p = PyFloat (Finite 0) then benign
        else unavailable),
       St_markdown (str ''### Submitted URL''),
       St_json (payload url)],
     None)"
  using analyze_dict[OF assms(1,2), of url] assms(3)
  by (simp only: result_events_def verdict_cases)

theorem prediction_outcome_witness:
  "analyze (str ''http://x'')
     (Inr \<lparr>status_code = 200, body = [], json = Inr (PyDict [(str ''prediction'', PyStr (str ''1''))])\<rparr>)
   = (request_events (str ''http://x'') @
      [St_toast (str ''Analysis complete!''),
       St_markdown (str ''### Result''),
       unavailable,
       St_markdown (str ''### Submitted URL''),
       St_json (payload (str ''http://x''))],
     None)
   \<and> analyze (str ''http://x'')
     (Inr \<lparr>status_code = 200, body = [], json = Inr (PyDict [(str ''prediction'', PyInt 1)])\<rparr>)
   = (request_events (str ''http://x'') @
      [St_toast (str ''Analysis complete!''),
       St_markdown (str ''### Result''),
       malicious,
       St_markdown (str ''### Submitted URL''),
       St_json (payload (str ''http://x''))],
     None)
   \<and> analyze (str ''http://x'')
     (Inr \<lparr>status_code = 200, body = [], json = Inr (PyDict [])\<rparr>)
   = (request_events (str ''http://x'') @
      [St_toast (str ''Analysis complete!''),
       St_markdown (str ''### Result''),
       unavailable,
       St_markdown (str ''### Submitted URL''),
       St_json (payload (str ''http://x''))],
     None)"
  using
    prediction_outcome[of
      "\<lparr>status_code = 200, body = [], json = Inr (PyDict [(str ''prediction'', PyStr (str ''1''))])\<rparr>"
      "[(str ''prediction'', PyStr (str ''1''))]" "PyStr (str ''1'')" "str ''http://x''"]
    prediction_outcome[of
      "\<lparr>status_code = 200, body = [], json = Inr (PyDict [(str ''prediction'', PyInt 1)])\<rparr>"
      "[(str ''prediction'', PyInt 1)]" "PyInt 1" "str ''http://x''"]
    prediction_outcome[of
      "\<lparr>status_code = 200, body = [], json = Inr (PyDict [])\<rparr>"
      "[]" "PyNone" "str ''http://x''"]
  by simp

text \<open>
  C1 as stated fails: the Boolean true is not the value 1, yet a response
  \<^verbatim>\<open>{"prediction": true}\<close> is reported malicious; and a body that decodes to a JSON array
  reaches none of the three results, the \<open>get\<close> on a list raising \<open>AttributeError\<close>.
\<close>

theorem prediction_true_counterexample:
  "PyBool True \<noteq> PyInt 1
   \<and> analyze (str ''http://x'')
     (Inr \<lparr>status_code = 200, body = [],
           json = Inr (PyDict [(str ''prediction'', PyBool True)])\<rparr>)
   = (request_events (str ''http://x'') @
      [St_toast (str ''Analysis complete!''),
       St_markdown (str ''### Result''),
       malicious,
       St_markdown (str ''### Submitted URL''),
       St_json (payload (str ''http://x''))],
     None)
   \<and> malicious \<noteq> unavailable
   \<and> analyze (str ''http://x'')
     (Inr \<lparr>status_code = 200, body = [], json = Inr (PyList [PyInt 1])\<rparr>)
   = (request_events (str ''http://x'') @
      [St_error (str ''Request failed: '' @ [39] @ str ''list'' @ [39]
         @ str '' object has no attribute '' @ [39] @ str ''get'' @ [39])],
     None)"
  by (simp add: analyze_def try_except_def try_body_def result_events_def verdict_def
      messages_distinct)

lemma analyze_not_dict:
  assumes "status_code r = 200" "json r = Inr v" "\<forall>d. v \<noteq> PyDict d"
  shows "analyze url (Inr r) =
     (request_events url @
        [St_error (str ''Request failed: '' @ [39] @ type_name v @ [39]
           @ str '' object has no attribute '' @ [39] @ str ''get'' @ [39])],
      None)"
proof -
  have "get v (str ''prediction'') PyNone =
      Inl (Exn AttributeError ([39] @ type_name v @ [39] @ str '' object has no attribute ''
        @ [39] @ str ''get'' @ [39]))"
    using assms(3) by (cases v) simp_all
  from analyze_no_get[OF assms(1,2) this] show ?thesis by simp
qed

lemma echoes_error: "echoes (request_events url @ [St_error m]) = []"
  by (simp add: echoes_append echoes_request_events) (simp add: echoes_def)

lemma echoes_analyze:
  "echoes (fst (analyze url rp)) =
     (case rp of
        Inl e \<Rightarrow> []
      | Inr r \<Rightarrow>
          if status_code r = 200
          then (case json r of Inr (PyDict d) \<Rightarrow> [PyDict [(str ''url'', PyStr url)]] | _ \<Rightarrow> [])
          else [])"
proof (cases rp)
  case (Inl e)
  then show ?thesis
    by (cases "is_Exception (class_of e)")
       (simp_all add: analyze_raised analyze_uncaught echoes_error echoes_request_events)
next
  case (Inr r)
  show ?thesis
  proof (cases "status_code r = 200")
    case False
    with Inr show ?thesis by (simp add: analyze_status echoes_error)
  next
    case True
    show ?thesis
    proof (cases "json r")
      case (Inl e)
      with Inr True show ?thesis
        by (cases "is_Exception (class_of e)")
           (simp_all add: analyze_json_raised analyze_json_uncaught echoes_error
              echoes_request_events)
    next
      case v: (Inr v)
      show ?thesis
      proof (cases "\<exists>d. v = PyDict d")
        case True
        then obtain d where "v = PyDict d" by blast
        with Inr \<open>status_code r = 200\<close> v show ?thesis
          by (simp add: analyze_dict echoes_append echoes_request_events echoes_result_events
              payload_def)
      next
        case False
        then have n: "\<forall>d. v \<noteq> PyDict d" by blast
        from analyze_not_dict[OF \<open>status_code r = 200\<close> v n, of url] Inr v n
        show ?thesis by (cases v) (simp_all add: echoes_error)
      qed
    qed
  qed
qed

text \<open>
  C2 (amended). For every submitted URL string and every reply: the submitted string is
  echoed, once and unchanged, as the document \<^verbatim>\<open>{"url": url}\<close>, exactly when the flow
  reaches the Malicious, Benign or Unavailable result (status 200 and a body that decodes
  to a JSON object), where it is the last thing rendered. In the ApiError branch (any
  other status) and on each way into the RequestFailed branch (an exception of
  \<open>requests.post\<close>, an exception of \<open>json()\<close>, or a decoded body that is not an object, on
  which \<open>get\<close> raises) the page renders the one error message after the request and
  nothing else, so the URL is not echoed. It is not echoed either when an exception that
  \<open>except Exception\<close> does not catch leaves the page.
\<close>

theorem url_echo:
  "echoes (fst (analyze url rp)) =
     (case rp of
        Inl e \<Rightarrow> []
      | Inr r \<Rightarrow>
          if status_code r = 200
          then (case json r of Inr (PyDict d) \<Rightarrow> [PyDict [(str ''url'', PyStr url)]] | _ \<Rightarrow> [])
          else [])
   \<and> (status_code r = 200 \<and> json r = Inr (PyDict d) \<longrightarrow>
        analyze url (Inr r) =
          (request_events url @
             [St_toast (str ''Analysis complete!''),
              St_markdown (str ''### Result''),
              verdict (case map_of d (str ''prediction'') of None \<Rightarrow> PyNone | Some v \<Rightarrow> v),
              St_markdown (str ''### Submitted URL''),
              St_json (PyDict [(str ''url'', PyStr url)])],
           None))
   \<and> (status_code r \<noteq> 200 \<longrightarrow>
        analyze url (Inr r) =
          (request_events url @
             [St_error (str ''API Error: '' @ str_int (status_code r) @ str '' - '' @ body r)],
           None))
   \<and> (is_Exception (class_of e) \<longrightarrow>
        analyze url (Inl e) =
          (request_events url @ [St_error (str ''Request failed: '' @ exn_str e)], None))
   \<and> (status_code r = 200 \<and> json r = Inl e \<and> is_Exception (class_of e) \<longrightarrow>
        analyze url (Inr r) =
          (request_events url @ [St_error (str ''Request failed: '' @ exn_str e)], None))
   \<and> (status_code r = 200 \<and> json r = Inr v \<and> (\<forall>d. v \<noteq> PyDict d) \<longrightarrow>
        analyze url (Inr r) =
          (request_events url @
             [St_error (str ''Request failed: '' @ [39] @ type_name v @ [39]
                @ str '' object has no attribute '' @ [39] @ str ''get'' @ [39])],
           None))
   \<and> (\<not> is_Exception (class_of e) \<longrightarrow> analyze url (Inl e) = (request_events url, Some e))
   \<and> (status_code r = 200 \<and> json r = Inl e \<and> \<not> is_Exception (class_of e) \<longrightarrow>
        analyze url (Inr r) = (request_events url, Some e))
   \<and> echoes (request_events url) = []"
proof (intro conjI impI)
  show "echoes (fst (analyze url rp)) =
     (case rp of
        Inl e \<Rightarrow> []
      | Inr r \<Rightarrow>
          if status_code r = 200
          then (case json r of Inr (PyDict d) \<Rightarrow> [PyDict [(str ''url'', PyStr url)]] | _ \<Rightarrow> [])
          else [])"
    by (rule echoes_analyze)
next
  assume "status_code r = 200 \<and> json r = Inr (PyDict d)"
  then show "analyze url (Inr r) =
          (request_events url @
             [St_toast (str ''Analysis complete!''),
              St_markdown (str ''### Result''),
              verdict (case map_of d (str ''prediction'') of None \<Rightarrow> PyNone | Some v \<Rightarrow> v),
              St_markdown (str ''### Submitted URL''),
              St_json (PyDict [(str ''url'', PyStr url)])],
           None)"
    by (simp add: analyze_dict result_events_def payload_def)
next
  assume "status_code r \<noteq> 200"
  then show "analyze url (Inr r) =
          (request_events url @
             [St_error (str ''API Error: '' @ str_int (status_code r) @ str '' - '' @ body r)],
           None)"
    by (rule analyze_status)
next
  assume "is_Exception (class_of e)"
  then show "analyze url (Inl e) =
          (request_events url @ [St_error (str ''Request failed: '' @ exn_str e)], None)"
    by (rule analyze_raised)
next
  assume "status_code r = 200 \<and> json r = Inl e \<and> is_Exception (class_of e)"
  then show "analyze url (Inr r) =
          (request_events url @ [St_error (str ''Request failed: '' @ exn_str e)], None)"
    by (simp add: analyze_json_raised)
next
  assume "status_code r = 200 \<and> json r = Inr v \<and> (\<forall>d. v \<noteq> PyDict d)"
  then show "analyze url (Inr r) =
          (request_events url @
             [St_error (str ''Request failed: '' @ [39] @ type_name v @ [39]
                @ str '' object has no attribute '' @ [39] @ str ''get'' @ [39])],
           None)"
    using analyze_not_dict[of r v url] by blast
next
  assume "\<not> is_Exception (class_of e)"
  then show "analyze url (Inl e) = (request_events url, Some e)"
    by (rule analyze_uncaught)
next
  assume "status_code r = 200 \<and> json r = Inl e \<and> \<not> is_Exception (class_of e)"
  then show "analyze url (Inr r) = (request_events url, Some e)"
    by (simp add: analyze_json_uncaught)
next
  show "echoes (request_events url) = []" by (rule echoes_request_events)
qed

text \<open>
  One reply for each case: a prediction, status 404, a timeout, a body that is not
  JSON, a body that decodes to a list, and an interrupt; the submitted string keeps its
  blanks where it is echoed.
\<close>

theorem url_echo_witness:
  "echoes (fst (analyze (str '' http://x '')
      (Inr \<lparr>status_code = 200, body = [],
            json = Inr (PyDict [(str ''prediction'', PyInt 0)])\<rparr>)))
     = [PyDict [(str ''url'', PyStr (str '' http://x ''))]]
   \<and> analyze (str '' http://x '')
      (Inr \<lparr>status_code = 200, body = [],
            json = Inr (PyDict [(str ''prediction'', PyInt 0)])\<rparr>)
     = (request_events (str '' http://x '') @
          [St_toast (str ''Analysis complete!''),
           St_markdown (str ''### Result''),
           benign,
           St_markdown (str ''### Submitted URL''),
           St_json (PyDict [(str ''url'', PyStr (str '' http://x ''))])],
        None)
   \<and> analyze (str '' http://x '')
      (Inr \<lparr>status_code = 500, body = str ''server error'',
            json = Inl (Exn JSONDecodeError (str ''Expecting value''))\<rparr>)
     = (request_events (str '' http://x '') @
          [St_error (str ''API Error: 500 - server error'')], None)
   \<and> analyze (str '' http://x '') (Inl (Exn Timeout (str ''Read timed out.'')))
     = (request_events (str '' http://x '') @
          [St_error (str ''Request failed: Read timed out.'')], None)
   \<and> analyze (str '' http://x '')
      (Inr \<lparr>status_code = 200, body = str ''<html>'',
            json = Inl (Exn JSONDecodeError (str ''Expecting value''))\<rparr>)
     = (request_events (str '' http://x '') @
          [St_error (str ''Request failed: Expecting value'')], None)
   \<and> analyze (str '' http://x '')
      (Inr \<lparr>status_code = 200, body = str ''[1]'', json = Inr (PyList [PyInt 1])\<rparr>)
     = (request_events (str '' http://x '') @
          [St_error (str ''Request failed: '' @ [39] @ str ''list'' @ [39]
             @ str '' object has no attribute '' @ [39] @ str ''get'' @ [39])], None)
   \<and> echoes (fst (analyze (str '' http://x '')
      (Inr \<lparr>status_code = 200, body = str ''[1]'', json = Inr (PyList [PyInt 1])\<rparr>))) = []
   \<and> analyze (str '' http://x '') (Inl (Exn KeyboardInterrupt []))
     = (request_events (str '' http://x ''), Some (Exn KeyboardInterrupt []))
   \<and> analyze (str '' http://x '')
      (Inr \<lparr>status_code = 200, body = [], json = Inl (Exn KeyboardInterrupt [])\<rparr>)
     = (request_events (str '' http://x ''), Some (Exn KeyboardInterrupt []))"
proof -
  let ?u = "str '' http://x ''"
  let ?ok = "\<lparr>status_code = 200, body = [],
            json = Inr (PyDict [(str ''prediction'', PyInt 0)])\<rparr>"
  let ?e500 = "\<lparr>status_code = 500, body = str ''server error'',
            json = Inl (Exn JSONDecodeError (str ''Expecting value''))\<rparr>"
  let ?html = "\<lparr>status_code = 200, body = str ''<html>'',
            json = Inl (Exn JSONDecodeError (str ''Expecting value''))\<rparr>"
  let ?list = "\<lparr>status_code = 200, body = str ''[1]'', json = Inr (PyList [PyInt 1])\<rparr>"
  let ?int = "\<lparr>status_code = 200, body = [], json = Inl (Exn KeyboardInterrupt [])\<rparr>"
  note t = url_echo[where url = ?u]
  have 1: "echoes (fst (analyze ?u (Inr ?ok))) = [PyDict [(str ''url'', PyStr ?u)]]"
    using t[where rp = "Inr ?ok" and r = ?ok and d = "[]" and e = "Exn Timeout []"
        and v = PyNone] by simp
  have 2: "analyze ?u (Inr ?ok) = (request_events ?u @
          [St_toast (str ''Analysis complete!''), St_markdown (str ''### Result''), benign,
           St_markdown (str ''### Submitted URL''),
           St_json (PyDict [(str ''url'', PyStr ?u)])], None)"
    using t[where rp = "Inr ?ok" and r = ?ok and d = "[(str ''prediction'', PyInt 0)]"
        and e = "Exn Timeout []" and v = PyNone]
    by (simp add: verdict_def)
  have 3: "analyze ?u (Inr ?e500) =
      (request_events ?u @ [St_error (str ''API Error: 500 - server error'')], None)"
    using t[where rp = "Inr ?e500" and r = ?e500 and d = "[]" and e = "Exn Timeout []"
        and v = PyNone]
    by (simp add: str_int_500) (simp add: str_def)
  have 4: "analyze ?u (Inl (Exn Timeout (str ''Read timed out.''))) =
      (request_events ?u @ [St_error (str ''Request failed: Read timed out.'')], None)"
    using t[where rp = "Inr ?ok" and r = ?ok and d = "[]"
        and e = "Exn Timeout (str ''Read timed out.'')" and v = PyNone]
    by (simp add: str_def)
  have 5: "analyze ?u (Inr ?html) =
      (request_events ?u @ [St_error (str ''Request failed: Expecting value'')], None)"
    using t[where rp = "Inr ?html" and r = ?html and d = "[]"
        and e = "Exn JSONDecodeError (str ''Expecting value'')" and v = PyNone]
    by (simp add: str_def)
  have 6: "analyze ?u (Inr ?list) = (request_events ?u @
          [St_error (str ''Request failed: '' @ [39] @ str ''list'' @ [39]
             @ str '' object has no attribute '' @ [39] @ str ''get'' @ [39])], None)"
    using t[where rp = "Inr ?list" and r = ?list and d = "[]" and e = "Exn Timeout []"
        and v = "PyList [PyInt 1]"] by (simp add: str_def)
  have 7: "echoes (fst (analyze ?u (Inr ?list))) = []"
    using t[where rp = "Inr ?list" and r = ?list and d = "[]" and e = "Exn Timeout []"
        and v = "PyList [PyInt 1]"] by (simp add: echoes_error)
  have 8: "analyze ?u (Inl (Exn KeyboardInterrupt [])) =
      (request_events ?u, Some (Exn KeyboardInterrupt []))"
    using t[where rp = "Inr ?ok" and r = ?ok and d = "[]" and e = "Exn KeyboardInterrupt []"
        and v = PyNone] by simp
  have 9: "analyze ?u (Inr ?int) = (request_events ?u, Some (Exn KeyboardInterrupt []))"
    using t[where rp = "Inr ?int" and r = ?int and d = "[]" and e = "Exn KeyboardInterrupt []"
        and v = PyNone] by simp
  from 1 2 3 4 5 6 7 8 9 show ?thesis by blast
qed

text \<open>
  C2 as stated fails in the ApiError branch: on status 500 the page shows the error
  message and returns, and no event carries the submitted URL back.
\<close>

theorem url_echo_counterexample:
  "analyze (str ''http://x'')
     (Inr \<lparr>status_code = 500, body = str ''server error'',
           json = Inl (Exn JSONDecodeError (str ''Expecting value''))\<rparr>)
   = ([St_spinner (str ''Sending URL to Space API for prediction...''),
       Time_sleep 1,
       Requests_post SPACE_API_URL (payload (str ''http://x'')),
       St_error (str ''API Error: 500 - server error'')],
      None)
   \<and> echoes (fst (analyze (str ''http://x'')
     (Inr \<lparr>status_code = 500, body = str ''server error'',
           json = Inl (Exn JSONDecodeError (str ''Expecting value''))\<rparr>))) = []"
  by (simp add: analyze_status request_events_def str_int_500 echoes_def) (simp add: str_def)

text \<open>
  C3 (amended). For every HTTP response with status exactly 200 whose body decodes to a
  JSON object, the flow goes on to the three-way result: one of the malicious, benign
  and unavailable messages is rendered. For every response with any other status, 2xx
  statuses other than 200 included, it renders the one message
  \<^verbatim>\<open>API Error: <status> - <body text>\<close> and returns: none of the three result messages is
  rendered.
\<close>

theorem status_dispatch:
  "(status_code r = 200 \<and> json r = Inr (PyDict d) \<longrightarrow>
      (\<exists>v. (v = malicious \<or> v = benign \<or> v = unavailable)
         \<and> analyze url (Inr r) =
             (request_events url @
                [St_toast (str ''Analysis complete!''), St_markdown (str ''### Result''), v,
                 St_markdown (str ''### Submitted URL''), St_json (payload url)],
              None)))
   \<and> (status_code r \<noteq> 200 \<longrightarrow>
        analyze url (Inr r) =
          (request_events url @
             [St_error (str ''API Error: '' @ str_int (status_code r) @ str '' - '' @ body r)],
           None)
        \<and> malicious \<notin> set (fst (analyze url (Inr r)))
        \<and> benign \<notin> set (fst (analyze url (Inr r)))
        \<and> unavailable \<notin> set (fst (analyze url (Inr r))))"
proof (intro conjI impI)
  assume a: "status_code r = 200 \<and> json r = Inr (PyDict d)"
  let ?p = "case map_of d (str ''prediction'') of None \<Rightarrow> PyNone | Some v \<Rightarrow> v"
  have "verdict ?p = malicious \<or> verdict ?p = benign \<or> verdict ?p = unavailable"
    by (simp add: verdict_def)
  moreover have "analyze url (Inr r) =
             (request_events url @
                [St_toast (str ''Analysis complete!''), St_markdown (str ''### Result''),
                 verdict ?p,
                 St_markdown (str ''### Submitted URL''), St_json (payload url)],
              None)"
    using a by (simp add: analyze_dict result_events_def)
  ultimately show "\<exists>v. (v = malicious \<or> v = benign \<or> v = unavailable)
         \<and> analyze url (Inr r) =
             (request_events url @
                [St_toast (str ''Analysis complete!''), St_markdown (str ''### Result''), v,
                 St_markdown (str ''### Submitted URL''), St_json (payload url)],
              None)"
    by blast
next
  assume a: "status_code r \<noteq> 200"
  then show e: "analyze url (Inr r) =
          (request_events url @
             [St_error (str ''API Error: '' @ str_int (status_code r) @ str '' - '' @ body r)],
           None)"
    by (rule analyze_status)
  show "malicious \<notin> set (fst (analyze url (Inr r)))"
    unfolding e by (simp add: request_events_def malicious_def str_def)
  show "benign \<notin> set (fst (analyze url (Inr r)))"
    unfolding e by (simp add: request_events_def benign_def)
  show "unavailable \<notin> set (fst (analyze url (Inr r)))"
    unfolding e by (simp add: request_events_def unavailable_def)
qed

theorem status_dispatch_witness:
  "(\<exists>v. (v = malicious \<or> v = benign \<or> v = unavailable)
      \<and> analyze (str ''http://x'')
           (Inr \<lparr>status_code = 200, body = [],
                 json = Inr (PyDict [(str ''prediction'', PyInt 2)])\<rparr>) =
          (request_events (str ''http://x'') @
             [St_toast (str ''Analysis complete!''), St_markdown (str ''### Result''), v,
              St_markdown (str ''### Submitted URL''), St_json (payload (str ''http://x''))],
           None))
   \<and> analyze (str ''http://x'')
        (Inr \<lparr>status_code = 500, body = str ''server error'',
              json = Inl (Exn JSONDecodeError (str ''Expecting value''))\<rparr>) =
       (request_events (str ''http://x'') @ [St_error (str ''API Error: 500 - server error'')],
        None)"
proof -
  have e: "str ''API Error: '' @ str_int 500 @ str '' - '' @ str ''server error''
      = str ''API Error: 500 - server error''"
    by (simp add: str_int_500) (simp add: str_def)
  from
    status_dispatch[of "\<lparr>status_code = 200, body = [],
                 json = Inr (PyDict [(str ''prediction'', PyInt 2)])\<rparr>"
      "[(str ''prediction'', PyInt 2)]" "str ''http://x''"]
    status_dispatch[of "\<lparr>status_code = 500, body = str ''server error'',
              json = Inl (Exn JSONDecodeError (str ''Expecting value''))\<rparr>"
      "[]" "str ''http://x''"] e
  show ?thesis by simp
qed

text \<open>
  C3 as stated fails on a 2xx status other than 200: a response 201 with the body
  \<^verbatim>\<open>{"prediction": 1}\<close> is reported as an API error and its body is never decoded.
\<close>

theorem status_201_counterexample:
  "analyze (str ''http://x'')
     (Inr \<lparr>status_code = 201,
           body = str ''{'' @ [34] @ str ''prediction'' @ [34] @ str '': 1}'',
           json = Inr (PyDict [(str ''prediction'', PyInt 1)])\<rparr>)
   = ([St_spinner (str ''Sending URL to Space API for prediction...''),
       Time_sleep 1,
       Requests_post SPACE_API_URL (payload (str ''http://x'')),
       St_error (str ''API Error: 201 - {'' @ [34] @ str ''prediction'' @ [34] @ str '': 1}'')],
      None)"
  by (simp add: analyze_status request_events_def str_int_201) (simp add: str_def)

text \<open>
  C4. When \<open>requests.post\<close> fails in the transport (no connection, timeout, TLS error),
  and when a response with status 200 has a body that \<open>json()\<close> cannot decode, the page
  renders \<^verbatim>\<open>Request failed: \<close> followed by the text of the exception and returns; no
  exception leaves the page (the second component is \<open>None\<close>).
\<close>

theorem request_failed:
  "(transport_failure (class_of e) \<longrightarrow>
      analyze url (Inl e) =
        (request_events url @ [St_error (str ''Request failed: '' @ exn_str e)], None))
   \<and> (status_code r = 200 \<and> json r = Inl e \<and> class_of e = JSONDecodeError \<longrightarrow>
      analyze url (Inr r) =
        (request_events url @ [St_error (str ''Request failed: '' @ exn_str e)], None))"
proof (intro conjI impI)
  assume "transport_failure (class_of e)"
  then have "is_Exception (class_of e)" by (cases "class_of e") simp_all
  then show "analyze url (Inl e) =
        (request_events url @ [St_error (str ''Request failed: '' @ exn_str e)], None)"
    by (rule analyze_raised)
next
  assume a: "status_code r = 200 \<and> json r = Inl e \<and> class_of e = JSONDecodeError"
  then have "is_Exception (class_of e)" by simp
  with a show "analyze url (Inr r) =
        (request_events url @ [St_error (str ''Request failed: '' @ exn_str e)], None)"
    by (simp add: analyze_json_raised)
qed

theorem request_failed_witness:
  "analyze (str ''http://x'') (Inl (Exn Timeout (str ''Read timed out.''))) =
     (request_events (str ''http://x'') @
        [St_error (str ''Request failed: '' @ str ''Read timed out.'')], None)
   \<and> analyze (str ''http://x'')
       (Inr \<lparr>status_code = 200, body = str ''<html>'',
             json = Inl (Exn JSONDecodeError (str ''Expecting value''))\<rparr>) =
     (request_events (str ''http://x'') @
        [St_error (str ''Request failed: '' @ str ''Expecting value'')], None)"
  using
    request_failed[of "Exn Timeout (str ''Read timed out.'')" "str ''http://x''"
      "\<lparr>status_code = 0, body = [], json = Inr PyNone\<rparr>"]
    request_failed[of "Exn JSONDecodeError (str ''Expecting value'')" "str ''http://x''"
      "\<lparr>status_code = 200, body = str ''<html>'',
             json = Inl (Exn JSONDecodeError (str ''Expecting value''))\<rparr>"]
  by simp

text \<open>
  C6. The result of the validator has no effect on the flow. For a string that
  \<open>is_valid_url\<close> accepts and one that it rejects, under the same reply of the service:
  each submission issues exactly one POST, to the configured endpoint and with its own
  string as the payload; and the two runs render the same events, up to the submitted
  string itself, and end alike.
\<close>

theorem validator_ignored:
  assumes "is_valid_url U u1" and "\<not> is_valid_url U u2"
  shows "posts (fst (analyze u1 r)) = [(SPACE_API_URL, payload u1)]
    \<and> posts (fst (analyze u2 r)) = [(SPACE_API_URL, payload u2)]
    \<and> map blank_url (fst (analyze u1 r)) = map blank_url (fst (analyze u2 r))
    \<and> snd (analyze u1 r) = snd (analyze u2 r)"
  using posts_analyze[of u1 r] posts_analyze[of u2 r] blank_analyze[of u1 r u2] by simp

theorem validator_ignored_witness:
  "is_valid_url latin1 (str ''http://localhost:8080'')
   \<and> \<not> is_valid_url latin1 (str ''not a url'')
   \<and> posts (fst (analyze (str ''not a url'')
        (Inr \<lparr>status_code = 200, body = [],
              json = Inr (PyDict [(str ''prediction'', PyInt 0)])\<rparr>)))
      = [(SPACE_API_URL, payload (str ''not a url''))]
   \<and> map blank_url (fst (analyze (str ''http://localhost:8080'')
        (Inr \<lparr>status_code = 200, body = [],
              json = Inr (PyDict [(str ''prediction'', PyInt 0)])\<rparr>)))
      = map blank_url (fst (analyze (str ''not a url'')
        (Inr \<lparr>status_code = 200, body = [],
              json = Inr (PyDict [(str ''prediction'', PyInt 0)])\<rparr>)))"
proof -
  have v: "is_valid_url latin1 (str ''http://localhost:8080'')"
    using unicode_ok_latin1 by (simp add: is_valid_url_def rx_eval del: item_match.simps(2))
  have n: "\<not> is_valid_url latin1 (str ''not a url'')"
    using unicode_ok_latin1 by (simp add: is_valid_url_def rx_eval del: item_match.simps(2))
  from validator_ignored[OF v n, of "Inr \<lparr>status_code = 200, body = [],
              json = Inr (PyDict [(str ''prediction'', PyInt 0)])\<rparr>"] v n
  show ?thesis by blast
qed

text \<open>
  C10. Because the branches test \<open>prediction == 1\<close> and \<open>prediction == 0\<close>, a response
  with status 200 whose field \<open>prediction\<close> is the Boolean true or the float 1.0 is
  reported malicious, and one whose field is false or the float 0.0 is reported benign;
  neither is the unavailable message.
\<close>

theorem bool_and_float_predictions:
  assumes "status_code r = 200" and "json r = Inr (PyDict d)"
    and "map_of d (str ''prediction'') = Some v"
  shows "(v = PyBool True \<or> v = PyFloat (Finite 1) \<longrightarrow>
      analyze url (Inr r) =
        (request_events url @
           [St_toast (str ''Analysis complete!''), St_markdown (str ''### Result''), malicious,
            St_markdown (str ''### Submitted URL''), St_json (payload url)],
         None))
    \<and> (v = PyBool False \<or> v = PyFloat (Finite 0) \<longrightarrow>
      analyze url (Inr r) =
        (request_events url @
           [St_toast (str ''Analysis complete!''), St_markdown (str ''### Result''), benign,
            St_markdown (str ''### Submitted URL''), St_json (payload url)],
         None))
    \<and> malicious \<noteq> unavailable \<and> benign \<noteq> unavailable"
  using analyze_dict[OF assms(1,2), of url] assms(3)
  by (auto simp: result_events_def verdict_def messages_distinct)

theorem bool_and_float_predictions_witness:
  "analyze (str ''http://x'')
     (Inr \<lparr>status_code = 200, body = [],
           json = Inr (PyDict [(str ''prediction'', PyFloat (Finite 1))])\<rparr>) =
     (request_events (str ''http://x'') @
        [St_toast (str ''Analysis complete!''), St_markdown (str ''### Result''), malicious,
         St_markdown (str ''### Submitted URL''), St_json (payload (str ''http://x''))],
      None)
   \<and> analyze (str ''http://x'')
     (Inr \<lparr>status_code = 200, body = [],
           json = Inr (PyDict [(str ''prediction'', PyBool False)])\<rparr>) =
     (request_events (str ''http://x'') @
        [St_toast (str ''Analysis complete!''), St_markdown (str ''### Result''), benign,
         St_markdown (str ''### Submitted URL''), St_json (payload (str ''http://x''))],
      None)"
  using
    bool_and_float_predictions[of
      "\<lparr>status_code = 200, body = [],
           json = Inr (PyDict [(str ''prediction'', PyFloat (Finite 1))])\<rparr>"
      "[(str ''prediction'', PyFloat (Finite 1))]" "PyFloat (Finite 1)" "str ''http://x''"]
    bool_and_float_predictions[of
      "\<lparr>status_code = 200, body = [],
           json = Inr (PyDict [(str ''prediction'', PyBool False)])\<rparr>"
      "[(str ''prediction'', PyBool False)]" "PyBool False" "str ''http://x''"]
  by simp

section \<open>Navigation and the session\<close>

lemma option_label_info: "(option_label n = str ''Project Info'') = (n = Project_Info)"
  by (cases n) (simp_all add: str_def)

lemma posts_Nil: "posts [] = []"
  by (simp add: posts_def)

lemma posts_Cons: "posts (e # es) = post_of e @ posts es"
  by (simp add: posts_def)

lemma posts_info_page: "posts (info_page w) = []"
  by (simp add: posts_Nil posts_Cons info_page_def)

lemma posts_set_page_config: "posts set_page_config = []"
  by (simp add: posts_Nil posts_Cons set_page_config_def)

lemma posts_prediction_page:
  "posts (fst (prediction_page w)) =
     (if button w then [(SPACE_API_URL, payload (url_input w))] else [])"
proof (cases "button w")
  case True
  obtain evs exc where a: "analyze (url_input w) (post_reply w) = (evs, exc)"
    by (cases "analyze (url_input w) (post_reply w)")
  then have "posts evs = [(SPACE_API_URL, payload (url_input w))]"
    using posts_analyze[of "url_input w" "post_reply w"] by simp
  with True a show ?thesis
    by (simp add: prediction_page_def posts_append posts_Nil posts_Cons)
next
  case False
  then show ?thesis by (simp add: prediction_page_def posts_Nil posts_Cons)
qed

lemma posts_script:
  "posts (fst (snd (script w st))) =
     (if radio w = URL_Prediction \<and> button w
      then [(SPACE_API_URL, payload (url_input w))] else [])"
proof (cases "radio w")
  case Project_Info
  then show ?thesis
    by (simp add: script_def main_def Let_def posts_append posts_info_page
          posts_set_page_config posts_Nil posts_Cons)
next
  case URL_Prediction
  obtain evs exc where p: "prediction_page w = (evs, exc)" by (cases "prediction_page w")
  then have "posts evs =
     (if button w then [(SPACE_API_URL, payload (url_input w))] else [])"
    using posts_prediction_page[of w] by simp
  with URL_Prediction p show ?thesis
    by (simp add: script_def main_def Let_def posts_append option_label_info
          posts_set_page_config posts_Nil posts_Cons del: option_label.simps)
qed

text \<open>
  C9. Rendering the information page issues no HTTP request. Over any session, from any
  session state and through any sequence of runs of the script, the requests issued are
  exactly, and in order, one POST of the submitted string for each run in which the
  prediction page is selected and its button pressed: no other run issues a request.
\<close>

theorem requests_only_on_submit:
  "posts (info_page w) = []
   \<and> posts (session st ws) =
       map (\<lambda>w. (SPACE_API_URL, payload (url_input w)))
         (filter (\<lambda>w. radio w = URL_Prediction \<and> button w) ws)"
proof
  show "posts (info_page w) = []" by (rule posts_info_page)
next
  show "posts (session st ws) =
       map (\<lambda>w. (SPACE_API_URL, payload (url_input w)))
         (filter (\<lambda>w. radio w = URL_Prediction \<and> button w) ws)"
  proof (induction ws arbitrary: st)
    case Nil
    show ?case by (simp add: posts_Nil)
  next
    case (Cons w ws)
    obtain st' evs exc where s: "script w st = (st', evs, exc)" by (cases "script w st")
    then have "posts evs = (if radio w = URL_Prediction \<and> button w
      then [(SPACE_API_URL, payload (url_input w))] else [])"
      using posts_script[of w st] by simp
    with s Cons.IH[of st'] show ?case by (simp add: posts_append)
  qed
qed

end
